theory Spec2Isabelle
  imports Main
begin

section \<open>JavaScript strings\<close>

text \<open>
  A JavaScript string is a sequence of UTF-16 code units. A code unit is modelled as a
  natural number (below 65536 in every real string); \<open>js\<close> turns an ASCII literal of
  the source into its code units. Characters of the source outside ASCII are written as
  their code units.
\<close>

type_synonym jsstring = "nat list"

definition js :: "string \<Rightarrow> jsstring" where
  "js s = map of_char s"

text \<open>\<open>String.prototype.slice(0, n)\<close>.\<close>

definition slice0 :: "nat \<Rightarrow> jsstring \<Rightarrow> jsstring" where
  "slice0 n s = take n s"

text \<open>\<open>Array.prototype.some\<close>: stops at the first element the callback accepts.\<close>

fun array_some :: "('a \<Rightarrow> bool) \<Rightarrow> 'a list \<Rightarrow> bool" where
  "array_some f [] = False"
| "array_some f (x # xs) = (if f x then True else array_some f xs)"

text \<open>\<open>Array.prototype.includes\<close>.\<close>

fun array_includes :: "'a list \<Rightarrow> 'a \<Rightarrow> bool" where
  "array_includes [] y = False"
| "array_includes (x # xs) y = (if x = y then True else array_includes xs y)"

text \<open>
  An argument of a tool call is \<open>undefined\<close> (\<open>None\<close>) or a string. \<open>truthy\<close> is the
  test \<open>if (args.x)\<close>: it yields the string when it is defined and not empty.
\<close>

definition truthy :: "jsstring option \<Rightarrow> jsstring option" where
  "truthy v = (case v of None \<Rightarrow> None | Some s \<Rightarrow> if s = [] then None else Some s)"

section \<open>Regular expressions of the plugins\<close>

text \<open>
  The regular-expression literals of the plugins use literal characters, the escapes
  \<open>\s\<close> and \<open>\w\<close>, the dot, character classes, the quantifiers \<open>*\<close>, \<open>+\<close>,
  \<open>{n,}\<close> and \<open>{n}\<close> on one character, \<open>?\<close>, groups with alternatives, the
  anchor \<open>$\<close>, and the flags \<open>i\<close> and \<open>g\<close>. They use neither \<open>^\<close> nor \<open>\b\<close> nor
  back-references, so whether a pattern matches at a position depends only on the input
  from that position on.
\<close>

datatype citem =
    Ch char             \<comment> \<open>one character\<close>
  | Rng char char       \<comment> \<open>\<open>a-z\<close>\<close>
  | Space               \<comment> \<open>\<open>\s\<close>\<close>
  | Word                \<comment> \<open>\<open>\w\<close>\<close>

datatype cset =
    Dot                 \<comment> \<open>\<open>.\<close>\<close>
  | One citem           \<comment> \<open>an escape such as \<open>\s\<close> outside a class\<close>
  | OneOf "citem list"  \<comment> \<open>\<open>[...]\<close>\<close>
  | NoneOf "citem list" \<comment> \<open>\<open>[^...]\<close>\<close>

datatype regex =
    Lit string          \<comment> \<open>a run of literal characters\<close>
  | Cls cset            \<comment> \<open>one character of a set\<close>
  | Many nat cset       \<comment> \<open>\<open>c{n,}\<close>, greedy: \<open>c*\<close> is \<open>Many 0 c\<close>, \<open>c+\<close> is \<open>Many 1 c\<close>\<close>
  | Times nat cset      \<comment> \<open>\<open>c{n}\<close>\<close>
  | Opt regex           \<comment> \<open>\<open>(r)?\<close>, greedy\<close>
  | Seq regex regex
  | Alt regex regex     \<comment> \<open>\<open>r|s\<close>\<close>
  | Dollar              \<comment> \<open>\<open>$\<close> without the flag \<open>m\<close>: the end of the input\<close>

text \<open>The concatenation of the parts of a pattern.\<close>

fun cat :: "regex list \<Rightarrow> regex" where
  "cat [] = Lit []"
| "cat [r] = r"
| "cat (r # rs) = Seq r (cat rs)"

record regexp =
  body :: regex
  ignoreCase :: bool    \<comment> \<open>flag \<open>i\<close>\<close>
  global :: bool        \<comment> \<open>flag \<open>g\<close>\<close>

definition re :: "regex \<Rightarrow> regexp" where
  "re r = \<lparr>body = r, ignoreCase = False, global = False\<rparr>"

definition re_i :: "regex \<Rightarrow> regexp" where
  "re_i r = \<lparr>body = r, ignoreCase = True, global = False\<rparr>"

definition re_g :: "regex \<Rightarrow> regexp" where
  "re_g r = \<lparr>body = r, ignoreCase = False, global = True\<rparr>"

subsection \<open>Characters\<close>

fun item_has :: "citem \<Rightarrow> nat \<Rightarrow> bool" where
  "item_has (Ch c) x = (x = of_char c)"
| "item_has (Rng a b) x = (of_char a \<le> x \<and> x \<le> of_char b)"
| "item_has Space x =
     (array_includes [9, 10, 11, 12, 13, 32, 160, 5760, 8232, 8233, 8239, 8287, 12288, 65279] x
      \<or> (8192 \<le> x \<and> x \<le> 8202))"
| "item_has Word x =
     ((97 \<le> x \<and> x \<le> 122) \<or> (65 \<le> x \<and> x \<le> 90) \<or> (48 \<le> x \<and> x \<le> 57) \<or> x = 95)"

text \<open>
  Under the flag \<open>i\<close> two characters are compared after canonicalisation, which maps a
  lower-case ASCII letter to its upper-case letter and never maps a character outside
  ASCII to an ASCII one. Every class member of the plugins' patterns is ASCII, so a
  character matches a member when it or its ASCII case counterpart is that member.
\<close>

definition swapcase :: "nat \<Rightarrow> nat" where
  "swapcase x =
     (if 65 \<le> x \<and> x \<le> 90 then x + 32 else if 97 \<le> x \<and> x \<le> 122 then x - 32 else x)"

definition item_match :: "bool \<Rightarrow> nat \<Rightarrow> citem \<Rightarrow> bool" where
  "item_match ic x it = (item_has it x \<or> (ic \<and> item_has it (swapcase x)))"

fun cmatch :: "bool \<Rightarrow> cset \<Rightarrow> nat \<Rightarrow> bool" where
  "cmatch ic Dot x = (\<not> array_includes [10, 13, 8232, 8233] x)"
| "cmatch ic (One it) x = item_match ic x it"
| "cmatch ic (OneOf its) x = array_some (item_match ic x) its"
| "cmatch ic (NoneOf its) x = (\<not> array_some (item_match ic x) its)"

subsection \<open>Matching at a position\<close>

text \<open>
  \<open>rmatch ic r s\<close> lists what is left of \<open>s\<close> after each way of matching \<open>r\<close> at its
  start, in the order in which a backtracking matcher tries them (a greedy quantifier
  tries the longest repetition first). The list is empty when \<open>r\<close> does not match there.
\<close>

fun lit_match :: "bool \<Rightarrow> string \<Rightarrow> jsstring \<Rightarrow> jsstring option" where
  "lit_match ic [] s = Some s"
| "lit_match ic (c # cs) [] = None"
| "lit_match ic (c # cs) (x # xs) =
     (if item_match ic x (Ch c) then lit_match ic cs xs else None)"

fun many :: "(nat \<Rightarrow> bool) \<Rightarrow> nat \<Rightarrow> jsstring \<Rightarrow> jsstring list" where
  "many p n [] = (if n = 0 then [[]] else [])"
| "many p n (x # xs) =
     (if p x then many p (n - 1) xs else []) @ (if n = 0 then [x # xs] else [])"

fun times :: "(nat \<Rightarrow> bool) \<Rightarrow> nat \<Rightarrow> jsstring \<Rightarrow> jsstring list" where
  "times p n [] = (if n = 0 then [[]] else [])"
| "times p n (x # xs) =
     (if n = 0 then [x # xs] else if p x then times p (n - 1) xs else [])"

fun rmatch :: "bool \<Rightarrow> regex \<Rightarrow> jsstring \<Rightarrow> jsstring list" where
  "rmatch ic (Lit cs) s = (case lit_match ic cs s of None \<Rightarrow> [] | Some t \<Rightarrow> [t])"
| "rmatch ic (Cls c) s =
     (case s of [] \<Rightarrow> [] | x # xs \<Rightarrow> if cmatch ic c x then [xs] else [])"
| "rmatch ic (Many n c) s = many (cmatch ic c) n s"
| "rmatch ic (Times n c) s = times (cmatch ic c) n s"
| "rmatch ic (Opt r) s = rmatch ic r s @ [s]"
| "rmatch ic (Seq a b) s = concat (map (rmatch ic b) (rmatch ic a s))"
| "rmatch ic (Alt a b) s = rmatch ic a s @ rmatch ic b s"
| "rmatch ic Dollar s = (if s = [] then [[]] else [])"

subsection \<open>\<open>RegExp.prototype.test\<close>\<close>

text \<open>
  \<open>search\<close> tries the start of the string, then each later position up to and including
  its end, and yields what is left after the first match found.
\<close>

fun search :: "bool \<Rightarrow> regex \<Rightarrow> jsstring \<Rightarrow> jsstring option" where
  "search ic r [] = (case rmatch ic r [] of [] \<Rightarrow> None | t # _ \<Rightarrow> Some t)"
| "search ic r (x # xs) =
     (case rmatch ic r (x # xs) of [] \<Rightarrow> search ic r xs | t # _ \<Rightarrow> Some t)"

text \<open>
  The built-in exec: a pattern without the flag \<open>g\<close> starts at index 0, one with it at
  its \<open>lastIndex\<close>; past the end of the input nothing matches. The result is the index
  where the match ends.
\<close>

definition regexp_exec :: "regexp \<Rightarrow> jsstring \<Rightarrow> nat \<Rightarrow> nat option" where
  "regexp_exec p s lastIndex =
     (let i = (if global p then lastIndex else 0) in
      if i > length s then None
      else case search (ignoreCase p) (body p) (drop i s) of
             None \<Rightarrow> None
           | Some t \<Rightarrow> Some (length s - length t))"

text \<open>
  \<open>test_from p s lastIndex\<close> is \<open>p.test(s)\<close> when the pattern's \<open>lastIndex\<close> has the
  given value: it returns the answer and the new \<open>lastIndex\<close>. A pattern with the flag
  \<open>g\<close> keeps the end of the match, or 0 after a failure; one without never changes it.
\<close>

definition test_from :: "regexp \<Rightarrow> jsstring \<Rightarrow> nat \<Rightarrow> bool \<times> nat" where
  "test_from p s lastIndex =
     (case regexp_exec p s lastIndex of
        None \<Rightarrow> (False, if global p then 0 else lastIndex)
      | Some e \<Rightarrow> (True, if global p then e else lastIndex))"

text \<open>\<open>p.test(s)\<close> for a pattern whose \<open>lastIndex\<close> is 0.\<close>

definition test :: "regexp \<Rightarrow> jsstring \<Rightarrow> bool" where
  "test p s = fst (test_from p s 0)"

text \<open>
  The loop \<open>for (const pattern of ps) { if (pattern.test(s)) throw ... }\<close>: the pattern
  at which the loop is left, or \<open>None\<close> when it runs to its end.
\<close>

fun first_match :: "regexp list \<Rightarrow> jsstring \<Rightarrow> regexp option" where
  "first_match [] s = None"
| "first_match (p # ps) s = (if test p s then Some p else first_match ps s)"

text \<open>What a hook does: it returns, having written lines to the console, or it throws.\<close>

datatype result = Returns "jsstring list" | Throws jsstring

record args =
  filePath :: "jsstring option"
  content :: "jsstring option"
  newString :: "jsstring option"
  command :: "jsstring option"

type_synonym hook = "jsstring \<Rightarrow> args \<Rightarrow> result"

section \<open>The environment protection plugin (env-protection.ts)\<close>

text \<open>
  \<open>path.basename\<close> of Node, for POSIX paths: trailing slashes are ignored and the
  segment after the last remaining slash is returned (47 is the slash).
\<close>

definition basename :: "jsstring \<Rightarrow> jsstring" where
  "basename p = rev (takeWhile (\<lambda>c. c \<noteq> 47) (dropWhile (\<lambda>c. c = 47) (rev p)))"

definition SENSITIVE_PATTERNS :: "regexp list" where
  "SENSITIVE_PATTERNS =
    [ re (cat [Lit ''.env'', Dollar]),
      re (cat [Lit ''.env.'', Many 1 Dot, Dollar]),
      re (cat [Lit ''credentials.json'', Dollar]),
      re (cat [Lit ''secrets.json'', Dollar]),
      re (cat [Lit ''.pem'', Dollar]),
      re (cat [Lit ''.key'', Dollar]),
      re (Lit ''id_rsa''),
      re (Lit ''id_ed25519''),
      re (cat [Lit ''.p12'', Dollar]),
      re (cat [Lit ''.pfx'', Dollar]),
      re (Lit ''keystore'') ]"

definition ALLOWED_FILES :: "jsstring list" where
  "ALLOWED_FILES = [js ''.env.example'', js ''.env.template'', js ''.env.sample'']"

definition isSensitiveFile :: "jsstring \<Rightarrow> bool" where
  "isSensitiveFile path =
     (if array_includes ALLOWED_FILES (basename path) then False
      else array_some (\<lambda>pattern. test pattern (basename path)) SENSITIVE_PATTERNS)"

text \<open>
  The double quote is the character 0x22 and the apostrophe 0x27; the padlock of the
  messages is the surrogate pair 0xD83D 0xDD12, and 10 is the line feed.
\<close>

definition quotes :: cset where
  "quotes = OneOf [Ch (CHR 0x22), Ch (CHR 0x27)]"

definition secretPatterns :: "regexp list" where
  "secretPatterns =
    [ re_i (cat [Lit ''api'', Opt (Cls (OneOf [Ch CHR ''_'', Ch CHR ''-''])), Lit ''key'',
                 Many 0 (One Space), Cls (OneOf [Ch CHR '':'', Ch CHR ''='']), Many 0 (One Space),
                 Cls quotes,
                 Many 20 (OneOf [Rng CHR ''a'' CHR ''z'', Rng CHR ''A'' CHR ''Z'', Rng CHR ''0'' CHR ''9'']),
                 Cls quotes]),
      re_i (cat [Lit ''secret'', Opt (Cls (OneOf [Ch CHR ''_'', Ch CHR ''-''])), Lit ''key'',
                 Many 0 (One Space), Cls (OneOf [Ch CHR '':'', Ch CHR ''='']), Many 0 (One Space),
                 Cls quotes,
                 Many 20 (OneOf [Rng CHR ''a'' CHR ''z'', Rng CHR ''A'' CHR ''Z'', Rng CHR ''0'' CHR ''9'']),
                 Cls quotes]),
      re_i (cat [Lit ''password'',
                 Many 0 (One Space), Cls (OneOf [Ch CHR '':'', Ch CHR ''='']), Many 0 (One Space),
                 Cls quotes,
                 Many 8 (NoneOf [Ch (CHR 0x22), Ch (CHR 0x27)]),
                 Cls quotes]),
      re (cat [Lit ''AKIA'', Times 16 (OneOf [Rng CHR ''0'' CHR ''9'', Rng CHR ''A'' CHR ''Z''])]),
      re (cat [Lit ''-----BEGIN '',
               Opt (Alt (Lit ''RSA '') (Alt (Lit ''DSA '') (Lit ''EC ''))),
               Lit ''PRIVATE KEY-----'']) ]"

definition padlock :: jsstring where
  "padlock = [0xD83D, 0xDD12]"

definition access_denied :: "jsstring \<Rightarrow> jsstring" where
  "access_denied path =
     padlock @ js '' Access denied: '' @ [0x22] @ basename path @ [0x22]
     @ js '' contains sensitive data.'' @ [10]
     @ js ''If you need to reference environment variables, use .env.example as a template.''"

definition write_denied :: "jsstring \<Rightarrow> jsstring" where
  "write_denied path =
     padlock @ js '' Write denied: Cannot modify sensitive file '' @ [0x22] @ basename path
     @ [0x22] @ js ''.'' @ [10]
     @ js ''Manually edit this file or use .env.example for templates.''"

definition secret_detected :: jsstring where
  "secret_detected =
     padlock @ js '' Secret detected: Content appears to contain hardcoded credentials.'' @ [10]
     @ js ''Please use environment variables instead of hardcoding secrets.''"

definition command_blocked :: jsstring where
  "command_blocked =
     padlock @ js '' Command blocked: This command may expose sensitive data.'' @ [10]
     @ js ''Avoid printing or echoing environment variables with secrets.''"

text \<open>
  The three checks of the first \<open>"tool.execute.before"\<close> function, each yielding the
  message of the error it throws, if it throws.
\<close>

definition check_read :: "jsstring \<Rightarrow> args \<Rightarrow> jsstring option" where
  "check_read tool a =
     (if tool = js ''read'' then
        (case truthy (filePath a) of
           None \<Rightarrow> None
         | Some p \<Rightarrow> if isSensitiveFile p then Some (access_denied p) else None)
      else None)"

definition check_write :: "jsstring \<Rightarrow> args \<Rightarrow> jsstring option" where
  "check_write tool a =
     (if tool = js ''write'' \<or> tool = js ''edit'' then
        (case truthy (filePath a) of
           None \<Rightarrow> None
         | Some p \<Rightarrow> if isSensitiveFile p then Some (write_denied p) else None)
      else None)"

definition check_content :: "jsstring \<Rightarrow> args \<Rightarrow> jsstring option" where
  "check_content tool a =
     (if tool = js ''write'' \<or> tool = js ''edit'' then
        (case truthy (content a) of
           None \<Rightarrow> None
         | Some c \<Rightarrow>
             (case first_match secretPatterns c of
                Some _ \<Rightarrow> Some secret_detected
              | None \<Rightarrow> None))
      else None)"

text \<open>The first function given for the key \<open>"tool.execute.before"\<close>.\<close>

definition file_guard :: hook where
  "file_guard tool a =
     (case check_read tool a of
        Some e \<Rightarrow> Throws e
      | None \<Rightarrow>
          (case check_write tool a of
             Some e \<Rightarrow> Throws e
           | None \<Rightarrow>
               (case check_content tool a of
                  Some e \<Rightarrow> Throws e
                | None \<Rightarrow> Returns [])))"

definition dangerousCommands :: "regexp list" where
  "dangerousCommands =
    [ re (cat [Lit ''cat'', Many 1 (One Space), Many 0 Dot, Lit ''.env'']),
      re_i (cat [Lit ''echo'', Many 1 (One Space), Many 0 Dot, Lit ''$'', Opt (Lit ''{''),
                 Many 0 (OneOf [Rng CHR ''A'' CHR ''Z'', Ch CHR ''_'']), Lit ''KEY'']),
      re_i (cat [Lit ''echo'', Many 1 (One Space), Many 0 Dot, Lit ''$'', Opt (Lit ''{''),
                 Many 0 (OneOf [Rng CHR ''A'' CHR ''Z'', Ch CHR ''_'']), Lit ''SECRET'']),
      re_i (cat [Lit ''echo'', Many 1 (One Space), Many 0 Dot, Lit ''$'', Opt (Lit ''{''),
                 Many 0 (OneOf [Rng CHR ''A'' CHR ''Z'', Ch CHR ''_'']), Lit ''PASSWORD'']),
      re (Lit ''printenv''),
      re (cat [Lit ''export'', Many 1 (One Space), Many 0 Dot, Lit ''='', Many 0 Dot,
               Cls quotes, Many 20 (NoneOf [Ch (CHR 0x22), Ch (CHR 0x27)]), Cls quotes]) ]"

text \<open>The second function given for the key \<open>"tool.execute.before"\<close>.\<close>

definition bash_guard :: hook where
  "bash_guard tool a =
     (if tool = js ''bash'' then
        (case truthy (command a) of
           None \<Rightarrow> Returns []
         | Some c \<Rightarrow>
             (case first_match dangerousCommands c of
                Some _ \<Rightarrow> Throws command_blocked
              | None \<Rightarrow> Returns []))
      else Returns [])"

text \<open>
  An object literal defines its properties from left to right; a key that is defined
  again takes the later value.
\<close>

definition object_literal :: "(string \<times> 'v) list \<Rightarrow> (string \<rightharpoonup> 'v)" where
  "object_literal props = foldl (\<lambda>obj (k, v). obj(k \<mapsto> v)) Map.empty props"

text \<open>The object the plugin returns: both functions under the same key.\<close>

definition env_protection :: "string \<rightharpoonup> hook" where
  "env_protection =
     object_literal
       [ (''tool.execute.before'', file_guard),
         (''tool.execute.before'', bash_guard) ]"

text \<open>
  Modelled from the spec: the host, which is not among the source files, invokes the
  function an object holds for an event, if it holds one; with no function for the
  event the call goes on unchanged.
\<close>

definition call_hook :: "(string \<rightharpoonup> hook) \<Rightarrow> string \<Rightarrow> jsstring \<Rightarrow> args \<Rightarrow> result" where
  "call_hook obj event tool a = (case obj event of None \<Rightarrow> Returns [] | Some h \<Rightarrow> h tool a)"

section \<open>The dangerous command blocker (in test-watcher.ts)\<close>

text \<open>
  The file holds several plugins one after the other; this one is the plugin with the
  lists \<open>DANGEROUS_COMMANDS\<close> and \<open>WARNINGS\<close>.
\<close>

definition DANGEROUS_COMMANDS :: "regexp list" where
  "DANGEROUS_COMMANDS =
    [ re (cat [Lit ''rm'', Many 1 (One Space), Lit ''-rf'', Many 1 (One Space),
               Cls (OneOf [Ch CHR ''/'', Ch CHR ''~''])]),
      re (cat [Lit ''rm'', Many 1 (One Space), Lit ''-rf'', Many 1 (One Space), Lit ''*'']),
      re (cat [Lit ''rm'', Many 1 (One Space), Lit ''-rf'', Many 1 (One Space), Lit ''..'']),
      re (cat [Lit ''>'', Many 0 (One Space), Lit ''/dev/sd'', Cls (OneOf [Rng CHR ''a'' CHR ''z''])]),
      re (Lit ''mkfs.''),
      re (cat [Lit ''dd'', Many 1 (One Space), Lit ''if='', Many 0 Dot, Lit ''of=/dev'']),
      re (cat [Lit ''chmod'', Many 1 (One Space), Lit ''-R'', Many 1 (One Space), Lit ''777'']),
      re (cat [Lit ''curl'', Many 0 Dot, Lit ''|'', Many 0 (One Space), Opt (Lit ''ba''), Lit ''sh'']),
      re (cat [Lit ''wget'', Many 0 Dot, Lit ''|'', Many 0 (One Space), Opt (Lit ''ba''), Lit ''sh'']),
      re (cat [Lit ''git'', Many 1 (One Space), Lit ''push'', Many 0 Dot, Lit ''--force'',
               Many 1 (One Space), Opt (cat [Lit ''origin'', Many 1 (One Space)]),
               Alt (Lit ''main'') (Lit ''master'')]),
      re (cat [Lit ''git'', Many 1 (One Space), Lit ''reset'', Many 1 (One Space), Lit ''--hard'',
               Many 1 (One Space), Lit ''origin'']),
      re_i (cat [Lit ''drop'', Many 1 (One Space), Lit ''database'']),
      re_i (cat [Lit ''drop'', Many 1 (One Space), Lit ''table'']),
      re_i (cat [Lit ''truncate'', Many 1 (One Space), Lit ''table'']),
      re_i (cat [Lit ''delete'', Many 1 (One Space), Lit ''from'', Many 1 (One Space),
                 Many 1 (One Word), Many 0 (One Space), Opt (Lit '';''), Many 0 (One Space),
                 Dollar]) ]"

record warning =
  pattern :: regexp
  message :: jsstring

definition WARNINGS :: "warning list" where
  "WARNINGS =
    [ \<lparr>pattern = re (cat [Lit ''npm'', Many 1 (One Space), Lit ''publish'']),
       message = js ''Publishing to npm registry''\<rparr>,
      \<lparr>pattern = re (cat [Lit ''docker'', Many 1 (One Space), Lit ''push'']),
       message = js ''Pushing Docker image''\<rparr>,
      \<lparr>pattern = re (cat [Lit ''kubectl'', Many 1 (One Space), Lit ''delete'']),
       message = js ''Deleting Kubernetes resources''\<rparr>,
      \<lparr>pattern = re (cat [Lit ''terraform'', Many 1 (One Space), Lit ''destroy'']),
       message = js ''Destroying Terraform infrastructure''\<rparr>,
      \<lparr>pattern = re (cat [Lit ''aws'', Many 1 (One Space), Many 0 Dot, Lit ''delete'']),
       message = js ''Deleting AWS resources''\<rparr> ]"

text \<open>
  The message of the error: the no-entry sign is the surrogate pair 0xD83D 0xDEAB.
\<close>

definition dangerous_blocked :: "jsstring \<Rightarrow> jsstring" where
  "dangerous_blocked cmd =
     [0xD83D, 0xDEAB] @ js '' Dangerous command blocked: '' @ [0x22] @ slice0 50 cmd
     @ js ''...'' @ [0x22] @ [10]
     @ js ''This command could cause irreversible damage.''"

text \<open>The two lines of a warning; the warning sign is 0x26A0 0xFE0F.\<close>

definition warning_lines :: "jsstring \<Rightarrow> jsstring \<Rightarrow> jsstring list" where
  "warning_lines msg cmd =
     [ [0x26A0, 0xFE0F] @ js ''  Warning: '' @ msg,
       js ''   Command: '' @ slice0 80 cmd ]"

text \<open>
  The loop over \<open>WARNINGS\<close>: it has no \<open>break\<close>, so it goes through every rule and
  writes the two lines of each rule whose pattern matches.
\<close>

fun warn_loop :: "warning list \<Rightarrow> jsstring \<Rightarrow> jsstring list" where
  "warn_loop [] cmd = []"
| "warn_loop (w # ws) cmd =
     (if test (pattern w) cmd then warning_lines (message w) cmd else []) @ warn_loop ws cmd"

definition blocker :: hook where
  "blocker tool a =
     (if tool \<noteq> js ''bash'' then Returns []
      else case truthy (command a) of
             None \<Rightarrow> Returns []
           | Some cmd \<Rightarrow>
               (case first_match DANGEROUS_COMMANDS cmd of
                  Some _ \<Rightarrow> Throws (dangerous_blocked cmd)
                | None \<Rightarrow> Returns (warn_loop WARNINGS cmd)))"

section \<open>The console-log detector (in test-watcher.ts)\<close>

definition CONSOLE_PATTERNS :: "regexp list" where
  "CONSOLE_PATTERNS =
    [ re_g (Lit ''console.log(''), re_g (Lit ''console.debug(''), re_g (Lit ''console.info('') ]"

definition ALLOWED_PATTERNS :: "regexp list" where
  "ALLOWED_PATTERNS =
    [ re (Lit ''console.error(''), re (Lit ''console.warn(''), re (Lit ''console.time''),
      re (Lit ''console.table('') ]"

text \<open>
  The patterns of \<open>CONSOLE_PATTERNS\<close> carry the flag \<open>g\<close>, so each keeps a
  \<open>lastIndex\<close> from one call of \<open>test\<close> to the next. The state of the module is the
  list of these indices, one for each pattern; all are 0 when the module is loaded.
\<close>

type_synonym indices = "nat list"

definition initial_indices :: indices where
  "initial_indices = [0, 0, 0]"

text \<open>
  \<open>ps.some(p => p.test(line))\<close> for patterns with their indices: every pattern that
  is tested gets its new index, and the patterns after the first success are not tested.
\<close>

fun some_test :: "regexp list \<Rightarrow> indices \<Rightarrow> jsstring \<Rightarrow> bool \<times> indices" where
  "some_test (p # ps) (i # is) line =
     (case test_from p line i of
        (True, i') \<Rightarrow> (True, i' # is)
      | (False, i') \<Rightarrow> (case some_test ps is line of (b, is') \<Rightarrow> (b, i' # is')))"
| "some_test ps is line = (False, is)"

text \<open>\<open>content.split('\n')\<close>.\<close>

fun split_lines :: "jsstring \<Rightarrow> jsstring list" where
  "split_lines [] = [[]]"
| "split_lines (c # cs) =
     (if c = 10 then [] # split_lines cs
      else case split_lines cs of [] \<Rightarrow> [[c]] | l # ls \<Rightarrow> (c # l) # ls)"

text \<open>The \<open>forEach\<close> over the lines, with the index of the line and the numbers found.\<close>

fun scan_lines :: "jsstring list \<Rightarrow> nat \<Rightarrow> indices \<Rightarrow> nat list \<Rightarrow> nat list \<times> indices" where
  "scan_lines [] index st lines = (lines, st)"
| "scan_lines (line # rest) index st lines =
     (if array_some (\<lambda>p. test p line) ALLOWED_PATTERNS then scan_lines rest (index + 1) st lines
      else case some_test CONSOLE_PATTERNS st line of
             (hasConsole, st') \<Rightarrow>
               scan_lines rest (index + 1) st' (if hasConsole then lines @ [index + 1] else lines))"

record console_result =
  found :: bool
  line_numbers :: "nat list"

definition containsConsoleLog :: "jsstring \<Rightarrow> indices \<Rightarrow> console_result \<times> indices" where
  "containsConsoleLog text st =
     (case scan_lines (split_lines text) 0 st [] of
        (lines, st') \<Rightarrow> (\<lparr>found = length lines > 0, line_numbers = lines\<rparr>, st'))"

section \<open>The session summary plugin (session-summary.ts)\<close>

record SessionStats =
  startTime :: int
  filesCreated :: "jsstring list"
  filesEdited :: "jsstring list"
  toolsUsed :: "(jsstring \<times> nat) list"   \<comment> \<open>a \<open>Map\<close>, in insertion order\<close>
  errors :: "jsstring list"

text \<open>The variable \<open>stats\<close> of the plugin: \<open>null\<close> or the statistics of the session.\<close>

type_synonym stats = "SessionStats option"

text \<open>\<open>Map.prototype.get\<close> and \<open>Map.prototype.set\<close>: a new key goes to the end.\<close>

fun map_get :: "(jsstring \<times> nat) list \<Rightarrow> jsstring \<Rightarrow> nat option" where
  "map_get [] k = None"
| "map_get ((k', v) # m) k = (if k' = k then Some v else map_get m k)"

fun map_set :: "(jsstring \<times> nat) list \<Rightarrow> jsstring \<Rightarrow> nat \<Rightarrow> (jsstring \<times> nat) list" where
  "map_set [] k v = [(k, v)]"
| "map_set ((k', v') # m) k v = (if k' = k then (k, v) # m else (k', v') # map_set m k v)"

definition session_create :: "int \<Rightarrow> stats \<Rightarrow> stats" where
  "session_create now st =
     Some \<lparr>startTime = now, filesCreated = [], filesEdited = [], toolsUsed = [], errors = []\<rparr>"

definition file_create :: "jsstring \<Rightarrow> stats \<Rightarrow> stats" where
  "file_create path st =
     (case st of
        None \<Rightarrow> None
      | Some s \<Rightarrow> Some (s\<lparr>filesCreated := filesCreated s @ [path]\<rparr>))"

definition file_edit :: "jsstring \<Rightarrow> stats \<Rightarrow> stats" where
  "file_edit path st =
     (case st of
        None \<Rightarrow> None
      | Some s \<Rightarrow>
          if \<not> array_includes (filesEdited s) path
          then Some (s\<lparr>filesEdited := filesEdited s @ [path]\<rparr>)
          else Some s)"

definition tool_execute_after :: "jsstring \<Rightarrow> stats \<Rightarrow> stats" where
  "tool_execute_after tool st =
     (case st of
        None \<Rightarrow> None
      | Some s \<Rightarrow>
          (let count = (case map_get (toolsUsed s) tool of None \<Rightarrow> 0 | Some c \<Rightarrow> c)
           in Some (s\<lparr>toolsUsed := map_set (toolsUsed s) tool (count + 1)\<rparr>)))"

text \<open>A number as the string JavaScript prints for it (48 is the digit 0, 45 the minus).\<close>

fun show_nat :: "nat \<Rightarrow> jsstring" where
  "show_nat n = (if n < 10 then [48 + n] else show_nat (n div 10) @ [48 + n mod 10])"

declare show_nat.simps [simp del]

definition show_int :: "int \<Rightarrow> jsstring" where
  "show_int i = (if i < 0 then 45 # show_nat (nat (- i)) else show_nat (nat i))"

text \<open>
  \<open>formatDuration\<close>: \<open>Math.floor\<close> of a quotient is \<open>div\<close>; the remainders are taken
  of positive numbers only, where \<open>%\<close> is \<open>mod\<close>.
\<close>

definition formatDuration :: "int \<Rightarrow> jsstring" where
  "formatDuration ms =
     (let seconds = ms div 1000; minutes = seconds div 60; hours = minutes div 60 in
      if hours > 0 then
        show_int hours @ js ''h '' @ show_int (minutes mod 60) @ js ''m ''
        @ show_int (seconds mod 60) @ js ''s''
      else if minutes > 0 then
        show_int minutes @ js ''m '' @ show_int (seconds mod 60) @ js ''s''
      else show_int seconds @ js ''s'')"

text \<open>The rule of the report is the character 0x2550, fifty times.\<close>

definition rule50 :: jsstring where
  "rule50 = replicate 50 0x2550"

text \<open>
  The lines \<open>"session.complete"\<close> writes for the statistics \<open>s\<close> at the time \<open>now\<close>.
  The entries of \<open>toolsUsed\<close> are sorted by falling count; the sort is stable.
\<close>

definition report :: "int \<Rightarrow> SessionStats \<Rightarrow> jsstring list" where
  "report now s =
     [ [10] @ rule50,
       [0xD83D, 0xDCCA] @ js '' SESSION SUMMARY'',
       rule50,
       [10, 0x23F1, 0xFE0F] @ js ''  Duration: '' @ formatDuration (now - startTime s),
       [10, 0xD83D, 0xDCC1] @ js '' Files:'',
       js ''   Created: '' @ show_nat (length (filesCreated s)),
       js ''   Edited:  '' @ show_nat (length (filesEdited s)) ]
     @ (if length (filesCreated s) > 0 then
          [[10] @ js ''   New files:'']
          @ map (\<lambda>f. js ''   + '' @ f) (take 5 (filesCreated s))
          @ (if length (filesCreated s) > 5
             then [js ''   ... and '' @ show_nat (length (filesCreated s) - 5) @ js '' more'']
             else [])
        else [])
     @ (if length (toolsUsed s) > 0 then
          [[10, 0xD83D, 0xDD27] @ js '' Tools used:'']
          @ map (\<lambda>(tool, count). js ''   '' @ tool @ js '': '' @ show_nat count)
              (take 5 (sort_key (\<lambda>(tool, count). - int count) (toolsUsed s)))
        else [])
     @ [ [10] @ rule50 @ [10] ]"

definition session_complete :: "int \<Rightarrow> stats \<Rightarrow> jsstring list \<times> stats" where
  "session_complete now st =
     (case st of None \<Rightarrow> ([], None) | Some s \<Rightarrow> (report now s, None))"

text \<open>The events the plugin listens to, and a run of the plugin over a list of them.\<close>

datatype event =
    SessionCreate int        \<comment> \<open>with the value of \<open>Date.now()\<close>\<close>
  | FileCreate jsstring
  | FileEdit jsstring
  | ToolExecuteAfter jsstring
  | SessionComplete int

fun handle :: "event \<Rightarrow> stats \<Rightarrow> stats" where
  "handle (SessionCreate now) st = session_create now st"
| "handle (FileCreate path) st = file_create path st"
| "handle (FileEdit path) st = file_edit path st"
| "handle (ToolExecuteAfter tool) st = tool_execute_after tool st"
| "handle (SessionComplete now) st = snd (session_complete now st)"

fun run_events :: "event list \<Rightarrow> stats \<Rightarrow> stats" where
  "run_events [] st = st"
| "run_events (e # es) st = run_events es (handle e st)"

text \<open>The invariant of the plugin's state: \<open>filesEdited\<close> holds no path twice.\<close>

definition edited_distinct :: "stats \<Rightarrow> bool" where
  "edited_distinct st = (case st of None \<Rightarrow> True | Some s \<Rightarrow> distinct (filesEdited s))"

section \<open>The hook registry and the lifecycle dispatcher\<close>

text \<open>
  Modelled from the spec: the Hook Registry and the Lifecycle Dispatcher. The plugins
  only export functions named after events; the engine that keeps the handlers of an
  event and runs them is part of the host and is not among the source files. The
  definitions below follow the contracts \<open>register\<close>, \<open>handlersFor\<close> and \<open>dispatch\<close>
  of the specification.
\<close>

datatype 'p outcome = Proceed 'p | Abort jsstring

text \<open>
  Modelled from the spec: what one handler does when it is invoked. It returns nothing
  (observe-only), returns a new payload (transform), raises a policy violation with a
  reason (abort), or fails with an unexpected error, which includes running out of time.
\<close>

datatype 'p signal =
    Nothing
  | Transform 'p
  | PolicyViolation jsstring
  | HandlerFailure jsstring

text \<open>
  Modelled from the spec: a handler has an identity and is invoked with the current
  payload and the session state, which it may change.
\<close>

record ('p, 's) handler =
  hid :: nat
  invoke :: "'p \<Rightarrow> 's \<Rightarrow> 'p signal \<times> 's"

type_synonym ('p, 's) registry = "string \<Rightarrow> ('p, 's) handler list"

datatype registry_error = DuplicateHandlerError

text \<open>
  Modelled from the spec: \<open>register\<close> without an order appends the handler to those of
  the event, and fails only when the same handler identity is registered twice for the
  same event. (A registration with an explicit order is not modelled: the specification
  does not say where it places the handler.)
\<close>

definition register ::
  "string \<Rightarrow> ('p, 's) handler \<Rightarrow> ('p, 's) registry \<Rightarrow> registry_error + ('p, 's) registry" where
  "register eventName h reg =
     (if array_includes (map hid (reg eventName)) (hid h) then Inl DuplicateHandlerError
      else Inr (reg(eventName := reg eventName @ [h])))"

text \<open>
  Modelled from the spec: \<open>handlersFor\<close>, the ordered handlers of an event.
\<close>

definition handlersFor :: "('p, 's) registry \<Rightarrow> string \<Rightarrow> ('p, 's) handler list" where
  "handlersFor reg eventName = reg eventName"

text \<open>
  Modelled from the spec: the registrations at startup, one \<open>register\<close> after the
  other; the first failure ends them.
\<close>

fun register_all ::
  "string \<Rightarrow> ('p, 's) handler list \<Rightarrow> ('p, 's) registry \<Rightarrow> registry_error + ('p, 's) registry" where
  "register_all eventName [] reg = Inr reg"
| "register_all eventName (h # hs) reg =
     (case register eventName h reg of
        Inl e \<Rightarrow> Inl e
      | Inr reg' \<Rightarrow> register_all eventName hs reg')"

text \<open>
  Modelled from the spec: the loop of \<open>dispatch\<close> over the handlers of an event. Its
  result is the outcome, the identities of the handlers it invoked, in the order of
  invocation, the unexpected errors it logged, and the session state at the end. A
  policy violation stops the loop; a new payload replaces the current one for the
  handlers that follow; an unexpected error is logged and the loop goes on.
\<close>

fun run_handlers ::
  "('p, 's) handler list \<Rightarrow> 'p \<Rightarrow> 's \<Rightarrow> 'p outcome \<times> nat list \<times> jsstring list \<times> 's" where
  "run_handlers [] p s = (Proceed p, [], [], s)"
| "run_handlers (h # hs) p s =
     (case invoke h p s of
        (PolicyViolation reason, s') \<Rightarrow> (Abort reason, [hid h], [], s')
      | (Transform p', s') \<Rightarrow>
          (case run_handlers hs p' s' of
             (out, ids, errs, s'') \<Rightarrow> (out, hid h # ids, errs, s''))
      | (Nothing, s') \<Rightarrow>
          (case run_handlers hs p s' of
             (out, ids, errs, s'') \<Rightarrow> (out, hid h # ids, errs, s''))
      | (HandlerFailure e, s') \<Rightarrow>
          (case run_handlers hs p s' of
             (out, ids, errs, s'') \<Rightarrow> (out, hid h # ids, e # errs, s'')))"

text \<open>
  Modelled from the spec: \<open>dispatch\<close> retrieves the ordered handlers of the event from
  the registry and runs the loop over them; with no handler the payload proceeds
  unchanged.
\<close>

definition dispatch ::
  "('p, 's) registry \<Rightarrow> string \<Rightarrow> 'p \<Rightarrow> 's \<Rightarrow> 'p outcome \<times> nat list \<times> jsstring list \<times> 's" where
  "dispatch reg eventName payload s = run_handlers (handlersFor reg eventName) payload s"

section \<open>Evaluation\<close>

lemmas js_eval = js_def truthy_def slice0_def

lemmas regex_eval =
  re_def re_i_def re_g_def swapcase_def item_match_def regexp_exec_def test_from_def test_def

lemmas env_eval =
  basename_def ALLOWED_FILES_def SENSITIVE_PATTERNS_def isSensitiveFile_def quotes_def
  secretPatterns_def check_read_def check_write_def check_content_def file_guard_def
  dangerousCommands_def bash_guard_def

section \<open>The duplicate key of the environment protection plugin\<close>

lemma env_protection_lookup: "env_protection = [''tool.execute.before'' \<mapsto> bash_guard]"
  by (simp add: env_protection_def object_literal_def)

lemma file_guard_read_env:
  "file_guard (js ''read'')
     \<lparr>filePath = Some (js ''.env''), content = None, newString = None, command = None\<rparr>
   = Throws (access_denied (js ''.env''))"
  by (simp add: js_eval regex_eval env_eval)

lemma bash_guard_not_bash: "tool \<noteq> js ''bash'' \<Longrightarrow> bash_guard tool a = Returns []"
  by (simp add: bash_guard_def)

lemma guards_differ: "file_guard \<noteq> bash_guard"
proof
  assume eq: "file_guard = bash_guard"
  have "bash_guard (js ''read'')
          \<lparr>filePath = Some (js ''.env''), content = None, newString = None, command = None\<rparr>
        = Returns []"
    by (rule bash_guard_not_bash) (simp add: js_def)
  with file_guard_read_env show False
    by (simp add: eq)
qed

text \<open>
  Claim C1. The object the environment protection plugin returns defines the key
  \<open>"tool.execute.before"\<close> twice, and the second definition replaces the first: the
  object holds that one key, its value is the checker of bash commands, and a call of
  the hook is a call of that checker for every tool and all arguments. The first
  function, which is a different function, is held under no key, so no call reaches
  its checks of file paths and of content: every call for a tool other than bash
  returns without an error.
\<close>

theorem env_protection_second_definition_wins:
  "env_protection ''tool.execute.before'' = Some bash_guard
   \<and> dom env_protection = {''tool.execute.before''}
   \<and> file_guard \<noteq> bash_guard
   \<and> call_hook env_protection ''tool.execute.before'' tool a = bash_guard tool a
   \<and> (tool \<noteq> js ''bash'' \<longrightarrow>
        call_hook env_protection ''tool.execute.before'' tool a = Returns [])"
  by (simp add: env_protection_lookup call_hook_def guards_differ bash_guard_not_bash)

theorem env_protection_second_definition_wins_witness:
  "js ''read'' \<noteq> js ''bash''
   \<and> call_hook env_protection ''tool.execute.before'' (js ''read'')
        \<lparr>filePath = Some (js ''.env''), content = None, newString = None, command = None\<rparr>
      = Returns []
   \<and> file_guard (js ''read'')
        \<lparr>filePath = Some (js ''.env''), content = None, newString = None, command = None\<rparr>
      = Throws (access_denied (js ''.env''))"
proof -
  have ne: "js ''read'' \<noteq> js ''bash''"
    by (simp add: js_def)
  from env_protection_second_definition_wins
         [of "js ''read''"
             "\<lparr>filePath = Some (js ''.env''), content = None, newString = None, command = None\<rparr>"]
       ne file_guard_read_env
  show ?thesis by blast
qed

section \<open>The dangerous command blocker on two commands\<close>

lemma rm_rf_root_matches: "first_match DANGEROUS_COMMANDS (js ''rm -rf /'') \<noteq> None"
  by (simp add: js_eval regex_eval DANGEROUS_COMMANDS_def)

lemma git_status_not_dangerous: "first_match DANGEROUS_COMMANDS (js ''git status'') = None"
  by (simp add: js_eval regex_eval DANGEROUS_COMMANDS_def)

lemma git_status_no_warning: "warn_loop WARNINGS (js ''git status'') = []"
  by (simp add: js_eval regex_eval WARNINGS_def)

lemma js_nonempty: "js (c # cs) \<noteq> []"
  by (simp add: js_def)

text \<open>
  Claim C4. For the bash command \<open>rm -rf /\<close> the dangerous command blocker throws an
  error whose message quotes the command and says that it could cause irreversible
  damage; for the bash command \<open>git status\<close>, which matches no dangerous rule and no
  warning rule, it returns without an error and without a line on the console, so the
  call goes on unchanged. The other arguments of the call play no part.
\<close>

theorem blocker_rm_rf_and_git_status:
  "blocker (js ''bash'') (a\<lparr>command := Some (js ''rm -rf /'')\<rparr>)
     = Throws (dangerous_blocked (js ''rm -rf /''))
   \<and> dangerous_blocked (js ''rm -rf /'')
     = [0xD83D, 0xDEAB] @ js '' Dangerous command blocked: '' @ [0x22] @ js ''rm -rf /...'' @ [0x22, 10]
       @ js ''This command could cause '' @ js ''irreversible damage'' @ js ''.''
   \<and> blocker (js ''bash'') (a\<lparr>command := Some (js ''git status'')\<rparr>) = Returns []"
proof -
  have 1: "blocker (js ''bash'') (a\<lparr>command := Some (js ''rm -rf /'')\<rparr>)
     = Throws (dangerous_blocked (js ''rm -rf /''))"
    using rm_rf_root_matches by (auto simp add: blocker_def truthy_def js_nonempty)
  have 2: "dangerous_blocked (js ''rm -rf /'')
     = [0xD83D, 0xDEAB] @ js '' Dangerous command blocked: '' @ [0x22] @ js ''rm -rf /...'' @ [0x22, 10]
       @ js ''This command could cause '' @ js ''irreversible damage'' @ js ''.''"
    by (simp add: dangerous_blocked_def js_def slice0_def)
  have 3: "blocker (js ''bash'') (a\<lparr>command := Some (js ''git status'')\<rparr>) = Returns []"
    using git_status_not_dangerous git_status_no_warning
    by (simp add: blocker_def truthy_def js_nonempty)
  from 1 2 3 show ?thesis by blast
qed

theorem blocker_rm_rf_and_git_status_witness:
  "blocker (js ''bash'')
     \<lparr>filePath = None, content = None, newString = None, command = Some (js ''rm -rf /'')\<rparr>
     = Throws (dangerous_blocked (js ''rm -rf /''))
   \<and> blocker (js ''bash'')
     \<lparr>filePath = None, content = None, newString = None, command = Some (js ''git status'')\<rparr>
     = Returns []"
  using blocker_rm_rf_and_git_status
          [of "\<lparr>filePath = None, content = None, newString = None, command = None\<rparr>"]
  by simp

section \<open>The empty string\<close>

lemma empty_matches_no_pattern:
  "\<forall>p \<in> set (SENSITIVE_PATTERNS @ secretPatterns @ dangerousCommands @ DANGEROUS_COMMANDS
                @ map pattern WARNINGS @ ALLOWED_PATTERNS). \<not> test p []"
  by (simp add: regex_eval SENSITIVE_PATTERNS_def secretPatterns_def dangerousCommands_def
        DANGEROUS_COMMANDS_def WARNINGS_def ALLOWED_PATTERNS_def quotes_def)

lemma empty_matches_no_console_pattern:
  "\<forall>p \<in> set CONSOLE_PATTERNS. \<not> fst (test_from p [] i)"
  by (simp add: regex_eval CONSOLE_PATTERNS_def)

lemma empty_not_sensitive: "\<not> isSensitiveFile []"
  by (simp add: js_eval regex_eval env_eval)

text \<open>
  Claim C8. The empty string matches no rule of any rule set of the plugins: no pattern
  of the sensitive files, of the secrets, of the two lists of dangerous commands, of the
  warnings or of the console detector matches it, whatever the \<open>lastIndex\<close> of a
  pattern with the flag \<open>g\<close>, and the empty path is not a sensitive file. In the
  hooks an empty command, an empty file path and an empty content are skipped as
  falsy values: the blocker and the checker of bash commands return for an empty
  command, the checks of the file path do not throw for an empty path, and the scan of
  the content does not throw for an empty content.
\<close>

theorem empty_string_matches_no_rule:
  "(\<forall>p \<in> set (SENSITIVE_PATTERNS @ secretPatterns @ dangerousCommands @ DANGEROUS_COMMANDS
                 @ map pattern WARNINGS @ ALLOWED_PATTERNS). \<not> test p [])
   \<and> (\<forall>p \<in> set CONSOLE_PATTERNS. \<not> fst (test_from p [] i))
   \<and> \<not> isSensitiveFile []
   \<and> blocker tool (a\<lparr>command := Some []\<rparr>) = Returns []
   \<and> bash_guard tool (a\<lparr>command := Some []\<rparr>) = Returns []
   \<and> check_read tool (a\<lparr>filePath := Some []\<rparr>) = None
   \<and> check_write tool (a\<lparr>filePath := Some []\<rparr>) = None
   \<and> check_content tool (a\<lparr>content := Some []\<rparr>) = None
   \<and> file_guard tool (a\<lparr>filePath := Some [], content := Some []\<rparr>) = Returns []"
proof -
  have "blocker tool (a\<lparr>command := Some []\<rparr>) = Returns []"
    by (simp add: blocker_def truthy_def)
  moreover have "bash_guard tool (a\<lparr>command := Some []\<rparr>) = Returns []"
    by (simp add: bash_guard_def truthy_def)
  moreover have "check_read tool (a\<lparr>filePath := Some []\<rparr>) = None"
    by (simp add: check_read_def truthy_def)
  moreover have "check_write tool (a\<lparr>filePath := Some []\<rparr>) = None"
    by (simp add: check_write_def truthy_def)
  moreover have "check_content tool (a\<lparr>content := Some []\<rparr>) = None"
    by (simp add: check_content_def truthy_def)
  moreover have "file_guard tool (a\<lparr>filePath := Some [], content := Some []\<rparr>) = Returns []"
    by (simp add: file_guard_def check_read_def check_write_def check_content_def truthy_def)
  ultimately show ?thesis
    using empty_matches_no_pattern empty_matches_no_console_pattern empty_not_sensitive
    by blast
qed

theorem empty_string_matches_no_rule_witness:
  "re (Lit ''mkfs.'') \<in> set (SENSITIVE_PATTERNS @ secretPatterns @ dangerousCommands
                               @ DANGEROUS_COMMANDS @ map pattern WARNINGS @ ALLOWED_PATTERNS)
   \<and> \<not> test (re (Lit ''mkfs.'')) []
   \<and> re_g (Lit ''console.log('') \<in> set CONSOLE_PATTERNS
   \<and> \<not> fst (test_from (re_g (Lit ''console.log('')) [] 12)
   \<and> blocker (js ''bash'')
        \<lparr>filePath = None, content = None, newString = None, command = Some []\<rparr> = Returns []
   \<and> file_guard (js ''write'')
        \<lparr>filePath = Some [], content = Some [], newString = None, command = None\<rparr> = Returns []"
proof -
  have 1: "re (Lit ''mkfs.'') \<in> set (SENSITIVE_PATTERNS @ secretPatterns @ dangerousCommands
                               @ DANGEROUS_COMMANDS @ map pattern WARNINGS @ ALLOWED_PATTERNS)"
    by (simp add: DANGEROUS_COMMANDS_def)
  have 2: "re_g (Lit ''console.log('') \<in> set CONSOLE_PATTERNS"
    by (simp add: CONSOLE_PATTERNS_def)
  from 1 2 empty_string_matches_no_rule
       [of 12 "js ''bash''"
           "\<lparr>filePath = None, content = None, newString = None, command = None\<rparr>"]
       empty_string_matches_no_rule
       [of 12 "js ''write''"
           "\<lparr>filePath = None, content = None, newString = None, command = None\<rparr>"]
  show ?thesis by simp
qed

section \<open>First match and all matches\<close>

lemma first_match_None: "first_match ps s = None \<longleftrightarrow> (\<forall>p \<in> set ps. \<not> test p s)"
  by (induction ps) auto

lemma first_match_Some:
  "first_match ps s = Some p \<Longrightarrow>
     \<exists>before after. ps = before @ p # after \<and> test p s \<and> (\<forall>q \<in> set before. \<not> test q s)"
proof (induction ps)
  case Nil
  then show ?case by simp
next
  case (Cons a ps)
  show ?case
  proof (cases "test a s")
    case True
    with Cons.prems have "a = p" by simp
    with True have "a # ps = [] @ p # ps \<and> test p s \<and> (\<forall>q \<in> set []. \<not> test q s)"
      by simp
    then show ?thesis by blast
  next
    case False
    with Cons.prems have "first_match ps s = Some p" by simp
    from Cons.IH [OF this] obtain before after
      where "ps = before @ p # after" "test p s" "\<forall>q \<in> set before. \<not> test q s"
      by blast
    with False have "a # ps = (a # before) @ p # after \<and> test p s
                     \<and> (\<forall>q \<in> set (a # before). \<not> test q s)"
      by simp
    then show ?thesis by blast
  qed
qed

lemma array_some_iff: "array_some f xs \<longleftrightarrow> (\<exists>x \<in> set xs. f x)"
  by (induction xs) auto

lemma warn_loop_all:
  "warn_loop ws cmd
   = concat (map (\<lambda>w. warning_lines (message w) cmd) (filter (\<lambda>w. test (pattern w) cmd) ws))"
  by (induction ws) auto

lemma two_warnings_not_dangerous:
  "first_match DANGEROUS_COMMANDS (js ''npm publish; docker push'') = None"
  by (simp add: js_eval regex_eval DANGEROUS_COMMANDS_def)

lemma two_warnings_warn_loop:
  "warn_loop WARNINGS (js ''npm publish; docker push'')
   = warning_lines (js ''Publishing to npm registry'') (js ''npm publish; docker push'')
     @ warning_lines (js ''Pushing Docker image'') (js ''npm publish; docker push'')"
  by (simp add: js_eval regex_eval WARNINGS_def)

lemma two_warnings_both_match:
  "test (pattern (WARNINGS ! 0)) (js ''npm publish; docker push'')
   \<and> test (pattern (WARNINGS ! 1)) (js ''npm publish; docker push'')"
  by (simp add: js_eval regex_eval WARNINGS_def)

text \<open>
  Claim C6, as stated, fails for the warning rules: the command
  \<open>npm publish; docker push\<close> matches the first and the second rule of \<open>WARNINGS\<close>,
  and the blocker reports both, the first-declared rule and the one declared after it.
\<close>

theorem warnings_report_every_match:
  "test (pattern (WARNINGS ! 0)) (js ''npm publish; docker push'')
   \<and> test (pattern (WARNINGS ! 1)) (js ''npm publish; docker push'')
   \<and> blocker (js ''bash'')
        \<lparr>filePath = None, content = None, newString = None,
         command = Some (js ''npm publish; docker push'')\<rparr>
      = Returns (warning_lines (message (WARNINGS ! 0)) (js ''npm publish; docker push'')
                 @ warning_lines (message (WARNINGS ! 1)) (js ''npm publish; docker push''))"
proof -
  have "message (WARNINGS ! 0) = js ''Publishing to npm registry''"
       "message (WARNINGS ! 1) = js ''Pushing Docker image''"
    by (simp_all add: WARNINGS_def)
  then show ?thesis
    using two_warnings_both_match two_warnings_not_dangerous two_warnings_warn_loop
    by (simp add: blocker_def truthy_def js_nonempty)
qed

text \<open>
  Claim C6, amended. The loops that abort stop at the first rule that matches, in the
  order of declaration: the loop of the form \<open>for (p of ps) if (p.test(s)) throw\<close> is
  left at a rule that matches and that no matching rule precedes, and runs to its end
  exactly when no rule matches; \<open>isSensitiveFile\<close> answers whether some pattern matches
  the base name of a path that is not allowed. Their result does not name the rule. The
  loop over the warning rules does not stop at a match: for a bash command that no
  dangerous rule matches, the blocker writes the lines of every warning rule that
  matches, in the order of declaration.
\<close>

theorem first_match_for_aborts_all_matches_for_warnings:
  "(first_match ps s = Some p \<longrightarrow>
      (\<exists>before after. ps = before @ p # after \<and> test p s \<and> (\<forall>q \<in> set before. \<not> test q s)))
   \<and> (first_match ps s = None \<longleftrightarrow> (\<forall>q \<in> set ps. \<not> test q s))
   \<and> (isSensitiveFile path \<longleftrightarrow>
        basename path \<notin> set ALLOWED_FILES
        \<and> (\<exists>q \<in> set SENSITIVE_PATTERNS. test q (basename path)))
   \<and> (cmd \<noteq> [] \<and> first_match DANGEROUS_COMMANDS cmd = None \<longrightarrow>
        blocker (js ''bash'') (a\<lparr>command := Some cmd\<rparr>)
        = Returns (concat (map (\<lambda>w. warning_lines (message w) cmd)
                            (filter (\<lambda>w. test (pattern w) cmd) WARNINGS))))
   \<and> (cmd \<noteq> [] \<and> first_match DANGEROUS_COMMANDS cmd \<noteq> None \<longrightarrow>
        blocker (js ''bash'') (a\<lparr>command := Some cmd\<rparr>) = Throws (dangerous_blocked cmd))"
proof -
  have includes_iff: "\<And>xs (y::jsstring). array_includes xs y \<longleftrightarrow> y \<in> set xs"
  proof -
    fix xs and y :: jsstring
    show "array_includes xs y \<longleftrightarrow> y \<in> set xs" by (induction xs) auto
  qed
  have "isSensitiveFile path \<longleftrightarrow>
        basename path \<notin> set ALLOWED_FILES
        \<and> (\<exists>q \<in> set SENSITIVE_PATTERNS. test q (basename path))"
    by (simp add: isSensitiveFile_def includes_iff array_some_iff)
  moreover have "cmd \<noteq> [] \<and> first_match DANGEROUS_COMMANDS cmd = None \<longrightarrow>
        blocker (js ''bash'') (a\<lparr>command := Some cmd\<rparr>)
        = Returns (concat (map (\<lambda>w. warning_lines (message w) cmd)
                            (filter (\<lambda>w. test (pattern w) cmd) WARNINGS)))"
    by (simp add: blocker_def truthy_def warn_loop_all)
  moreover have "cmd \<noteq> [] \<and> first_match DANGEROUS_COMMANDS cmd \<noteq> None \<longrightarrow>
        blocker (js ''bash'') (a\<lparr>command := Some cmd\<rparr>) = Throws (dangerous_blocked cmd)"
    by (auto simp add: blocker_def truthy_def)
  ultimately show ?thesis
    using first_match_Some [of ps s p] first_match_None [of ps s] by blast
qed

lemma rm_rf_root_first_rule:
  "first_match DANGEROUS_COMMANDS (js ''rm -rf /'') = Some (DANGEROUS_COMMANDS ! 0)"
  by (simp add: js_eval regex_eval DANGEROUS_COMMANDS_def)

theorem first_match_for_aborts_all_matches_for_warnings_witness:
  "first_match DANGEROUS_COMMANDS (js ''rm -rf /'') = Some (DANGEROUS_COMMANDS ! 0)
   \<and> (\<exists>before after. DANGEROUS_COMMANDS = before @ (DANGEROUS_COMMANDS ! 0) # after
         \<and> test (DANGEROUS_COMMANDS ! 0) (js ''rm -rf /'')
         \<and> (\<forall>q \<in> set before. \<not> test q (js ''rm -rf /'')))
   \<and> js ''rm -rf /'' \<noteq> [] \<and> first_match DANGEROUS_COMMANDS (js ''rm -rf /'') \<noteq> None
   \<and> blocker (js ''bash'')
        \<lparr>filePath = None, content = None, newString = None, command = Some (js ''rm -rf /'')\<rparr>
      = Throws (dangerous_blocked (js ''rm -rf /''))
   \<and> js ''npm publish; docker push'' \<noteq> []
   \<and> first_match DANGEROUS_COMMANDS (js ''npm publish; docker push'') = None
   \<and> blocker (js ''bash'')
        \<lparr>filePath = None, content = None, newString = None,
         command = Some (js ''npm publish; docker push'')\<rparr>
      = Returns (concat (map (\<lambda>w. warning_lines (message w) (js ''npm publish; docker push''))
                          (filter (\<lambda>w. test (pattern w) (js ''npm publish; docker push''))
                             WARNINGS)))"
proof -
  have h1: "first_match DANGEROUS_COMMANDS (js ''rm -rf /'') = Some (DANGEROUS_COMMANDS ! 0)"
    by (rule rm_rf_root_first_rule)
  have h2: "js ''rm -rf /'' \<noteq> []" "js ''npm publish; docker push'' \<noteq> []"
    by (simp_all add: js_def)
  have h3: "first_match DANGEROUS_COMMANDS (js ''npm publish; docker push'') = None"
    by (rule two_warnings_not_dangerous)
  from h1 h2 h3
    first_match_for_aborts_all_matches_for_warnings
      [of DANGEROUS_COMMANDS "js ''rm -rf /''" "DANGEROUS_COMMANDS ! 0" "js ''.env''"
          "js ''rm -rf /''"
          "\<lparr>filePath = None, content = None, newString = None, command = None\<rparr>"]
    first_match_for_aborts_all_matches_for_warnings
      [of DANGEROUS_COMMANDS "js ''rm -rf /''" "DANGEROUS_COMMANDS ! 0" "js ''.env''"
          "js ''npm publish; docker push''"
          "\<lparr>filePath = None, content = None, newString = None, command = None\<rparr>"]
  show ?thesis by simp
qed

section \<open>The console-log detector called twice\<close>

lemmas console_eval =
  CONSOLE_PATTERNS_def ALLOWED_PATTERNS_def initial_indices_def containsConsoleLog_def

text \<open>
  Claim C7 fails on the code. The three patterns of \<open>CONSOLE_PATTERNS\<close> carry the
  flag \<open>g\<close>, so \<open>test\<close> leaves the end of its match in the pattern's \<open>lastIndex\<close>
  and the next \<open>test\<close> of the same pattern starts there. The first call of
  \<open>containsConsoleLog\<close> on the content \<open>console.log(1)\<close> finds line 1 and leaves the
  index 12; the second call on the same content starts after the match and finds
  nothing. Within one call the same happens from one line to the next: of two lines
  \<open>console.log(1)\<close> and \<open>console.log(2)\<close> only the first is reported.
\<close>

theorem containsConsoleLog_depends_on_earlier_calls:
  "containsConsoleLog (js ''console.log(1)'') initial_indices
     = (\<lparr>found = True, line_numbers = [1]\<rparr>, [12, 0, 0])
   \<and> containsConsoleLog (js ''console.log(1)'') [12, 0, 0]
     = (\<lparr>found = False, line_numbers = []\<rparr>, [0, 0, 0])
   \<and> containsConsoleLog (js ''console.log(1)'' @ [10] @ js ''console.log(2)'') initial_indices
     = (\<lparr>found = True, line_numbers = [1]\<rparr>, [0, 0, 0])"
  by (simp add: js_eval regex_eval console_eval)

section \<open>Writes that the plugin does not block\<close>

lemma write_is_not_bash: "js ''write'' \<noteq> js ''bash''" "js ''edit'' \<noteq> js ''bash''"
  by (simp_all add: js_def)

lemma env_basename: "basename (js ''.env'') = js ''.env''"
  by (simp add: basename_def js_def)

lemma env_sensitive: "isSensitiveFile (js ''.env'')"
  by (simp add: js_eval regex_eval env_eval)

lemma file_guard_write_env:
  "file_guard (js ''write'')
     \<lparr>filePath = Some (js ''.env''), content = Some (js ''PORT=3000''),
      newString = None, command = None\<rparr>
   = Throws (write_denied (js ''.env''))"
  by (simp add: js_eval regex_eval env_eval)

lemma file_guard_edit_env:
  "file_guard (js ''edit'')
     \<lparr>filePath = Some (js ''.env''), content = Some (js ''PORT=3000''),
      newString = None, command = None\<rparr>
   = Throws (write_denied (js ''.env''))"
  by (simp add: js_eval regex_eval env_eval)

text \<open>
  Claim C2 fails on the code. The path \<open>.env\<close> has the base name \<open>.env\<close> and is a
  sensitive file, and the first function for \<open>"tool.execute.before"\<close> throws the
  write-denied error for a write and for an edit of it. The object the plugin returns
  does not hold that function: its hook for \<open>"tool.execute.before"\<close> is the checker of
  bash commands, so a write and an edit of \<open>.env\<close> through the plugin return without
  an error.
\<close>

theorem write_to_env_is_not_blocked:
  "basename (js ''.env'') = js ''.env''
   \<and> isSensitiveFile (js ''.env'')
   \<and> file_guard (js ''write'')
        \<lparr>filePath = Some (js ''.env''), content = Some (js ''PORT=3000''),
         newString = None, command = None\<rparr>
      = Throws (write_denied (js ''.env''))
   \<and> file_guard (js ''edit'')
        \<lparr>filePath = Some (js ''.env''), content = Some (js ''PORT=3000''),
         newString = None, command = None\<rparr>
      = Throws (write_denied (js ''.env''))
   \<and> call_hook env_protection ''tool.execute.before'' (js ''write'')
        \<lparr>filePath = Some (js ''.env''), content = Some (js ''PORT=3000''),
         newString = None, command = None\<rparr>
      = Returns []
   \<and> call_hook env_protection ''tool.execute.before'' (js ''edit'')
        \<lparr>filePath = Some (js ''.env''), content = Some (js ''PORT=3000''),
         newString = None, command = None\<rparr>
      = Returns []"
  by (simp add: env_basename env_sensitive file_guard_write_env file_guard_edit_env
        env_protection_lookup call_hook_def bash_guard_not_bash write_is_not_bash)

section \<open>Content that the plugin does not scan\<close>

lemma file_guard_access_key:
  "file_guard (js ''write'')
     \<lparr>filePath = Some (js ''config.ts''), content = Some (js ''AKIA0123456789ABCDEF''),
      newString = None, command = None\<rparr>
   = Throws secret_detected"
  by (simp add: js_eval regex_eval env_eval)

lemma access_key_pattern_matches: "test (secretPatterns ! 3) (js ''AKIA0123456789ABCDEF'')"
  by (simp add: js_eval regex_eval secretPatterns_def)

text \<open>
  Claim C3 fails on the code. The content \<open>AKIA0123456789ABCDEF\<close> is \<open>AKIA\<close> followed
  by 16 alphanumeric characters; the pattern of the access key matches it, and the first
  function for \<open>"tool.execute.before"\<close> throws the secret-detected error for a write
  of it. The object the plugin returns does not hold that function, so the scan of the
  content never runs: the write through the plugin returns without an error.
\<close>

theorem access_key_is_not_scanned:
  "length (js ''0123456789ABCDEF'') = 16
   \<and> js ''AKIA0123456789ABCDEF'' = js ''AKIA'' @ js ''0123456789ABCDEF''
   \<and> test (secretPatterns ! 3) (js ''AKIA0123456789ABCDEF'')
   \<and> file_guard (js ''write'')
        \<lparr>filePath = Some (js ''config.ts''), content = Some (js ''AKIA0123456789ABCDEF''),
         newString = None, command = None\<rparr>
      = Throws secret_detected
   \<and> call_hook env_protection ''tool.execute.before'' (js ''write'')
        \<lparr>filePath = Some (js ''config.ts''), content = Some (js ''AKIA0123456789ABCDEF''),
         newString = None, command = None\<rparr>
      = Returns []"
proof (intro conjI)
  show "length (js ''0123456789ABCDEF'') = 16"
    by (simp add: js_def)
  show "js ''AKIA0123456789ABCDEF'' = js ''AKIA'' @ js ''0123456789ABCDEF''"
    by (simp add: js_def)
  show "test (secretPatterns ! 3) (js ''AKIA0123456789ABCDEF'')"
    by (rule access_key_pattern_matches)
  show "file_guard (js ''write'')
        \<lparr>filePath = Some (js ''config.ts''), content = Some (js ''AKIA0123456789ABCDEF''),
         newString = None, command = None\<rparr>
      = Throws secret_detected"
    by (rule file_guard_access_key)
  show "call_hook env_protection ''tool.execute.before'' (js ''write'')
        \<lparr>filePath = Some (js ''config.ts''), content = Some (js ''AKIA0123456789ABCDEF''),
         newString = None, command = None\<rparr>
      = Returns []"
    by (simp add: env_protection_lookup call_hook_def bash_guard_not_bash write_is_not_bash)
qed

section \<open>The files of a session\<close>

lemma array_includes_iff: "array_includes xs y \<longleftrightarrow> y \<in> set xs"
  by (induction xs) auto

text \<open>
  Claim C9. After \<open>session.create\<close>, two \<open>file.edit\<close> events with two distinct paths
  leave exactly these two paths in \<open>filesEdited\<close>, in the order of the events, whatever
  the state of the plugin was before the session was created.
\<close>

theorem two_edits_two_entries:
  "p1 \<noteq> p2 \<Longrightarrow>
   \<exists>s. run_events [SessionCreate now, FileEdit p1, FileEdit p2] st = Some s
       \<and> filesEdited s = [p1, p2] \<and> length (filesEdited s) = 2"
  by (simp add: session_create_def file_edit_def)

theorem two_edits_two_entries_witness:
  "js ''a.ts'' \<noteq> js ''b.ts''
   \<and> (\<exists>s. run_events [SessionCreate 1000, FileEdit (js ''a.ts''), FileEdit (js ''b.ts'')] None
            = Some s
          \<and> filesEdited s = [js ''a.ts'', js ''b.ts''] \<and> length (filesEdited s) = 2)"
proof -
  have ne: "js ''a.ts'' \<noteq> js ''b.ts''"
    by (simp add: js_def)
  from ne two_edits_two_entries [OF ne, of 1000 None] show ?thesis
    by blast
qed

lemma handle_keeps_edited_distinct: "edited_distinct st \<Longrightarrow> edited_distinct (handle e st)"
proof (cases e)
  case (SessionCreate now)
  then show ?thesis by (simp add: edited_distinct_def session_create_def)
next
  case (FileCreate path)
  assume "edited_distinct st"
  with FileCreate show ?thesis
    by (simp add: edited_distinct_def file_create_def split: option.splits)
next
  case (FileEdit path)
  assume "edited_distinct st"
  with FileEdit show ?thesis
    by (auto simp add: edited_distinct_def file_edit_def array_includes_iff split: option.splits)
next
  case (ToolExecuteAfter tool)
  assume "edited_distinct st"
  with ToolExecuteAfter show ?thesis
    by (simp add: edited_distinct_def tool_execute_after_def Let_def split: option.splits)
next
  case (SessionComplete now)
  then show ?thesis
    by (simp add: edited_distinct_def session_complete_def split: option.splits)
qed

lemma run_events_keeps_edited_distinct:
  "edited_distinct st \<Longrightarrow> edited_distinct (run_events es st)"
  by (induction es arbitrary: st) (simp_all add: handle_keeps_edited_distinct)

lemma created_line: "report now s ! 5 = js ''   Created: '' @ show_nat (length (filesCreated s))"
  by (simp add: report_def)

lemma show_nat_2: "show_nat (Suc (Suc 0)) = js ''2''"
  by (simp add: show_nat.simps [of "Suc (Suc 0)"] js_def)

text \<open>
  Claim C10. After \<open>session.create\<close> the list \<open>filesEdited\<close> never holds a path twice,
  whatever events follow: \<open>file.edit\<close> appends a path only when the list does not hold
  it. The list \<open>filesCreated\<close> has no such check: two \<open>file.create\<close> events with the
  same path append the path twice, so the list has two entries for one distinct file,
  and the report of \<open>session.complete\<close> prints the count 2.
\<close>

theorem edited_distinct_created_not:
  "edited_distinct (run_events (SessionCreate now # es) st)
   \<and> (\<exists>s. run_events [SessionCreate now, FileCreate p, FileCreate p] st = Some s
          \<and> filesCreated s = [p, p]
          \<and> length (filesCreated s) = 2
          \<and> card (set (filesCreated s)) = 1
          \<and> report later s ! 5 = js ''   Created: 2'')"
proof
  have "edited_distinct (session_create now st)"
    by (simp add: edited_distinct_def session_create_def)
  then show "edited_distinct (run_events (SessionCreate now # es) st)"
    by (simp add: run_events_keeps_edited_distinct)
next
  show "\<exists>s. run_events [SessionCreate now, FileCreate p, FileCreate p] st = Some s
          \<and> filesCreated s = [p, p]
          \<and> length (filesCreated s) = 2
          \<and> card (set (filesCreated s)) = 1
          \<and> report later s ! 5 = js ''   Created: 2''"
    by (simp add: session_create_def file_create_def created_line show_nat_2) (simp add: js_def)
qed

theorem edited_distinct_created_not_witness:
  "edited_distinct
     (run_events [SessionCreate 1000, FileEdit (js ''a.ts''), FileCreate (js ''b.ts''),
                  FileEdit (js ''a.ts''), FileCreate (js ''b.ts'')] None)
   \<and> run_events [SessionCreate 1000, FileEdit (js ''a.ts''), FileCreate (js ''b.ts''),
                  FileEdit (js ''a.ts''), FileCreate (js ''b.ts'')] None
     = Some \<lparr>startTime = 1000, filesCreated = [js ''b.ts'', js ''b.ts''],
              filesEdited = [js ''a.ts''], toolsUsed = [], errors = []\<rparr>"
proof -
  have "run_events [SessionCreate 1000, FileEdit (js ''a.ts''), FileCreate (js ''b.ts''),
                  FileEdit (js ''a.ts''), FileCreate (js ''b.ts'')] None
     = Some \<lparr>startTime = 1000, filesCreated = [js ''b.ts'', js ''b.ts''],
              filesEdited = [js ''a.ts''], toolsUsed = [], errors = []\<rparr>"
    by (simp add: session_create_def file_create_def file_edit_def)
  with edited_distinct_created_not
         [of 1000 "[FileEdit (js ''a.ts''), FileCreate (js ''b.ts''),
                    FileEdit (js ''a.ts''), FileCreate (js ''b.ts'')]" None]
  show ?thesis by blast
qed

section \<open>The order of dispatch\<close>

lemma register_appends:
  "register ev h reg = Inr reg' \<Longrightarrow> handlersFor reg' ev = handlersFor reg ev @ [h]"
  by (auto simp add: register_def handlersFor_def split: if_splits)

lemma register_all_appends:
  "register_all ev hs reg = Inr reg' \<Longrightarrow> handlersFor reg' ev = handlersFor reg ev @ hs"
proof (induction hs arbitrary: reg)
  case Nil
  then show ?case by simp
next
  case (Cons h hs)
  from Cons.prems obtain reg1 where r1: "register ev h reg = Inr reg1"
    and r2: "register_all ev hs reg1 = Inr reg'"
    by (auto split: sum.splits)
  from Cons.IH [OF r2] register_appends [OF r1] show ?case
    by simp
qed

lemma invoked_all_on_proceed:
  "run_handlers hs p s = (Proceed p', ids, errs, s') \<Longrightarrow> ids = map hid hs"
proof (induction hs arbitrary: p s ids errs)
  case Nil
  then show ?case by simp
next
  case (Cons h hs)
  obtain sig s1 where i: "invoke h p s = (sig, s1)"
    by (cases "invoke h p s")
  show ?case
  proof (cases sig)
    case Nothing
    with Cons.prems i obtain ids' errs' where
      "run_handlers hs p s1 = (Proceed p', ids', errs', s')" "ids = hid h # ids'"
      by (auto split: prod.splits)
    with Cons.IH show ?thesis by simp
  next
    case (Transform q)
    with Cons.prems i obtain ids' errs' where
      "run_handlers hs q s1 = (Proceed p', ids', errs', s')" "ids = hid h # ids'"
      by (auto split: prod.splits)
    with Cons.IH show ?thesis by simp
  next
    case (PolicyViolation r)
    with Cons.prems i show ?thesis by simp
  next
    case (HandlerFailure e)
    with Cons.prems i obtain ids' errs' where
      "run_handlers hs p s1 = (Proceed p', ids', errs', s')" "ids = hid h # ids'"
      by (auto split: prod.splits)
    with Cons.IH show ?thesis by simp
  qed
qed

lemma short_circuit:
  "run_handlers before p s = (Proceed p1, ids1, errs1, s1) \<Longrightarrow>
   invoke h p1 s1 = (PolicyViolation r, s2) \<Longrightarrow>
   run_handlers (before @ h # after) p s = (Abort r, ids1 @ [hid h], errs1, s2)"
proof (induction before arbitrary: p s ids1 errs1)
  case Nil
  then show ?case by simp
next
  case (Cons g before)
  obtain sig t where i: "invoke g p s = (sig, t)"
    by (cases "invoke g p s")
  show ?case
  proof (cases sig)
    case Nothing
    with Cons.prems(1) i obtain ids' errs' where
      r: "run_handlers before p t = (Proceed p1, ids', errs', s1)"
      and e: "ids1 = hid g # ids'" "errs1 = errs'"
      by (auto split: prod.splits)
    from Cons.IH [OF r Cons.prems(2)] Nothing i e show ?thesis by simp
  next
    case (Transform q)
    with Cons.prems(1) i obtain ids' errs' where
      r: "run_handlers before q t = (Proceed p1, ids', errs', s1)"
      and e: "ids1 = hid g # ids'" "errs1 = errs'"
      by (auto split: prod.splits)
    from Cons.IH [OF r Cons.prems(2)] Transform i e show ?thesis by simp
  next
    case (PolicyViolation r')
    with Cons.prems(1) i show ?thesis by simp
  next
    case (HandlerFailure x)
    with Cons.prems(1) i obtain ids' errs' where
      r: "run_handlers before p t = (Proceed p1, ids', errs', s1)"
      and e: "ids1 = hid g # ids'" "errs1 = x # errs'"
      by (auto split: prod.splits)
    from Cons.IH [OF r Cons.prems(2)] HandlerFailure i e show ?thesis by simp
  qed
qed

lemma abort_at_first_violation:
  "run_handlers hs p s = (Abort r, ids, errs, s') \<Longrightarrow>
   \<exists>before h after p1 s1 ids1.
     hs = before @ h # after \<and> ids = map hid before @ [hid h]
     \<and> run_handlers before p s = (Proceed p1, ids1, errs, s1)
     \<and> invoke h p1 s1 = (PolicyViolation r, s')"
proof (induction hs arbitrary: p s ids errs)
  case Nil
  then show ?case by simp
next
  case (Cons g hs)
  obtain sig t where i: "invoke g p s = (sig, t)"
    by (cases "invoke g p s")
  have step: ?case
    if r: "run_handlers hs q t = (Abort r, ids', errs', s')"
      and e: "ids = hid g # ids'"
      and pre: "\<And>before p1 ids1 s1. run_handlers before q t = (Proceed p1, ids1, errs', s1) \<Longrightarrow>
                 run_handlers (g # before) p s = (Proceed p1, hid g # ids1, errs, s1)"
    for q ids' errs'
  proof -
    from Cons.IH [OF r] obtain before h after p1 s1 ids1 where
      h: "hs = before @ h # after" "ids' = map hid before @ [hid h]"
         "run_handlers before q t = (Proceed p1, ids1, errs', s1)"
         "invoke h p1 s1 = (PolicyViolation r, s')"
      by blast
    from h(1) have "g # hs = (g # before) @ h # after" by simp
    moreover from h(2) e have "ids = map hid (g # before) @ [hid h]" by simp
    moreover note pre [OF h(3)] h(4)
    ultimately show ?thesis by blast
  qed
  show ?case
  proof (cases sig)
    case Nothing
    with Cons.prems i obtain ids' where
      r: "run_handlers hs p t = (Abort r, ids', errs, s')" and e: "ids = hid g # ids'"
      by (auto split: prod.splits)
    show ?thesis
      by (rule step [OF r e]) (simp add: i Nothing)
  next
    case (Transform q)
    with Cons.prems i obtain ids' where
      r: "run_handlers hs q t = (Abort r, ids', errs, s')" and e: "ids = hid g # ids'"
      by (auto split: prod.splits)
    show ?thesis
      by (rule step [OF r e]) (simp add: i Transform)
  next
    case (PolicyViolation r')
    with Cons.prems i have "r' = r" "ids = [hid g]" "errs = []" "t = s'"
      by simp_all
    with i PolicyViolation
    have "g # hs = [] @ g # hs \<and> ids = map hid [] @ [hid g]
          \<and> run_handlers [] p s = (Proceed p, [], errs, s)
          \<and> invoke g p s = (PolicyViolation r, s')"
      by simp
    then show ?thesis by blast
  next
    case (HandlerFailure x)
    with Cons.prems i obtain ids' errs' where
      r: "run_handlers hs p t = (Abort r, ids', errs', s')" and e: "ids = hid g # ids'"
      and x: "errs = x # errs'"
      by (auto split: prod.splits)
    show ?thesis
      by (rule step [OF r e]) (simp add: i HandlerFailure x)
  qed
qed

text \<open>
  Claim C5. Handlers registered one after the other for an event are the handlers of
  that event in the order of registration. A dispatch that proceeds has invoked all of
  them, in that order. A dispatch that aborts with a reason has invoked the handlers up
  to and including the first one that raised a policy violation, in that order, and
  none after it; the reason is the one that handler raised. Conversely, when the
  handlers before some handler run without a policy violation and that handler raises
  one on the payload and state they leave, the dispatch aborts with its reason whatever
  handlers come after it.
\<close>

theorem dispatch_order_and_short_circuit:
  "(register_all ev hs (\<lambda>_. []) = Inr reg \<longrightarrow> handlersFor reg ev = hs)
   \<and> (dispatch reg ev p s = (Proceed p', ids, errs, s') \<longrightarrow>
        ids = map hid (handlersFor reg ev))
   \<and> (dispatch reg ev p s = (Abort r, ids, errs, s') \<longrightarrow>
        (\<exists>before h after p1 s1 ids1.
            handlersFor reg ev = before @ h # after
          \<and> ids = map hid before @ [hid h]
          \<and> run_handlers before p s = (Proceed p1, ids1, errs, s1)
          \<and> invoke h p1 s1 = (PolicyViolation r, s')))
   \<and> (handlersFor reg ev = before @ h # after
        \<and> run_handlers before p s = (Proceed p1, ids1, errs1, s1)
        \<and> invoke h p1 s1 = (PolicyViolation r, s2) \<longrightarrow>
        dispatch reg ev p s = (Abort r, map hid before @ [hid h], errs1, s2))"
proof (intro conjI impI)
  assume "register_all ev hs (\<lambda>_. []) = Inr reg"
  from register_all_appends [OF this] show "handlersFor reg ev = hs"
    by (simp add: handlersFor_def)
next
  assume "dispatch reg ev p s = (Proceed p', ids, errs, s')"
  then show "ids = map hid (handlersFor reg ev)"
    unfolding dispatch_def by (rule invoked_all_on_proceed)
next
  assume "dispatch reg ev p s = (Abort r, ids, errs, s')"
  then show "\<exists>before h after p1 s1 ids1.
            handlersFor reg ev = before @ h # after
          \<and> ids = map hid before @ [hid h]
          \<and> run_handlers before p s = (Proceed p1, ids1, errs, s1)
          \<and> invoke h p1 s1 = (PolicyViolation r, s')"
    unfolding dispatch_def by (rule abort_at_first_violation)
next
  assume h: "handlersFor reg ev = before @ h # after
        \<and> run_handlers before p s = (Proceed p1, ids1, errs1, s1)
        \<and> invoke h p1 s1 = (PolicyViolation r, s2)"
  then have "run_handlers before p s = (Proceed p1, ids1, errs1, s1)"
    by simp
  then have "ids1 = map hid before"
    by (rule invoked_all_on_proceed)
  with h short_circuit [of before p s p1 ids1 errs1 s1 h r s2 after]
  show "dispatch reg ev p s = (Abort r, map hid before @ [hid h], errs1, s2)"
    by (simp add: dispatch_def)
qed

theorem dispatch_order_and_short_circuit_witness:
  "let h1 = \<lparr>hid = 1, invoke = (\<lambda>p s. (Transform (p + 1), s))\<rparr>;
       h2 = \<lparr>hid = 2, invoke = (\<lambda>p s. if p = 1 then (PolicyViolation (js ''blocked''), s)
                                        else (Nothing, s))\<rparr>;
       h3 = \<lparr>hid = 3, invoke = (\<lambda>p s. (Nothing, s + 1))\<rparr>;
       reg = (\<lambda>_. [])(''tool.before'' := [h1, h2, h3])
   in register_all ''tool.before'' [h1, h2, h3] (\<lambda>_. []) = Inr reg
      \<and> handlersFor reg ''tool.before'' = [h1, h2, h3]
      \<and> dispatch reg ''tool.before'' (0::nat) (0::nat) = (Abort (js ''blocked''), [1, 2], [], 0)
      \<and> dispatch reg ''tool.before'' 5 0 = (Proceed 6, [1, 2, 3], [], 1)"
proof -
  let ?h1 = "\<lparr>hid = 1, invoke = (\<lambda>(p::nat) (s::nat). (Transform (p + 1), s))\<rparr>"
  let ?h2 = "\<lparr>hid = 2, invoke = (\<lambda>(p::nat) (s::nat).
                 if p = 1 then (PolicyViolation (js ''blocked''), s) else (Nothing, s))\<rparr>"
  let ?h3 = "\<lparr>hid = 3, invoke = (\<lambda>(p::nat) (s::nat). (Nothing :: nat signal, s + 1))\<rparr>"
  let ?reg = "(\<lambda>_. [])(''tool.before'' := [?h1, ?h2, ?h3])"
  have r: "register_all ''tool.before'' [?h1, ?h2, ?h3] (\<lambda>_. []) = Inr ?reg"
    by (simp add: register_def)
  have b: "run_handlers [?h1] 0 0 = (Proceed 1, [1], [], 0)"
    by simp
  have v: "invoke ?h2 1 0 = (PolicyViolation (js ''blocked''), 0)"
    by simp
  have d: "dispatch ?reg ''tool.before'' 5 0 = (Proceed 6, [1, 2, 3], [], 1)"
    by (simp add: dispatch_def handlersFor_def)
  note t = dispatch_order_and_short_circuit
             [where ev = "''tool.before''" and hs = "[?h1, ?h2, ?h3]" and reg = ?reg
                and p = 0 and s = 0 and before = "[?h1]" and h = ?h2 and after = "[?h3]"
                and ?p1.0 = 1 and ?ids1.0 = "[1]" and ?errs1.0 = "[]" and ?s1.0 = 0
                and r = "js ''blocked''" and ?s2.0 = 0]
  from t r have hf: "handlersFor ?reg ''tool.before'' = [?h1, ?h2, ?h3]"
    by blast
  from t hf b v
  have a: "dispatch ?reg ''tool.before'' 0 0 = (Abort (js ''blocked''), [1, 2], [], 0)"
    by simp
  from r hf a d show ?thesis
    by (simp add: Let_def)
qed

end
